theory Spec2Isabelle
  imports Main "HOL-Library.AList" "HOL-Library.Char_ord" "HOL-Library.List_Lexorder"
    "HOL-Library.Sorting_Algorithms"
begin

section \<open>Text as the program sees it\<close>

text \<open>
  A source string is a sequence of UTF-16 code units. The model keeps the code units
  below 256 (ISO-8859-1, which holds every character of the program's own literals,
  accented ones included): one \<^typ>\<open>char\<close> is one code unit, so \<open>length\<close> is the
  source's \<open>.length\<close>. The accented letters of the literals are written by code:
  \<open>CHR 0xE9\<close> is e-acute, \<open>CHR 0xED\<close> is i-acute.
\<close>

definition isWhiteSpace :: "char \<Rightarrow> bool" where
  \<comment> \<open>what \<open>trim\<close> strips and what \<open>\s\<close> matches, below 256: TAB, LF, VT, FF, CR, space, NBSP\<close>
  "isWhiteSpace c \<longleftrightarrow>
     c \<in> set [CHR 0x09, CHR 0x0A, CHR 0x0B, CHR 0x0C, CHR 0x0D, CHR 0x20, CHR 0xA0]"

definition isDigit :: "char \<Rightarrow> bool" where
  \<comment> \<open>\<open>\d\<close> and \<open>[0-9]\<close>\<close>
  "isDigit c \<longleftrightarrow> c \<in> set ''0123456789''"

definition trim :: "string \<Rightarrow> string" where
  "trim s = rev (dropWhile isWhiteSpace (rev (dropWhile isWhiteSpace s)))"

definition lowerChar :: "char \<Rightarrow> char" where
  \<comment> \<open>A-Z, and the accented capitals 0xC0-0xDE without the multiplication sign 0xD7\<close>
  "lowerChar c =
     (let n = (of_char c :: nat)
      in if (65 \<le> n \<and> n \<le> 90) \<or> (192 \<le> n \<and> n \<le> 222 \<and> n \<noteq> 215)
         then char_of (n + 32) else c)"

definition toLowerCase :: "string \<Rightarrow> string" where
  "toLowerCase s = map lowerChar s"

definition upperChar :: "char \<Rightarrow> string" where
  \<comment> \<open>a-z, the accented small letters 0xE0-0xFE without the division sign 0xF7, and
      sharp s (0xDF), which becomes the two letters SS. The capitals of micro (0xB5) and of
      y-diaeresis (0xFF) lie above 255; they stay as they are here, which keeps them apart
      from every other code unit, as their capitals are in the source.\<close>
  "upperChar c =
     (let n = (of_char c :: nat)
      in if (97 \<le> n \<and> n \<le> 122) \<or> (224 \<le> n \<and> n \<le> 254 \<and> n \<noteq> 247)
         then [char_of (n - 32)]
         else if n = 223 then ''SS'' else [c])"

definition toUpperCase :: "string \<Rightarrow> string" where
  "toUpperCase s = concat (map upperChar s)"

fun startsWith :: "string \<Rightarrow> string \<Rightarrow> bool" where
  "startsWith s [] = True"
| "startsWith [] (t # ts) = False"
| "startsWith (c # cs) (t # ts) = (c = t \<and> startsWith cs ts)"

fun includesStr :: "string \<Rightarrow> string \<Rightarrow> bool" where
  \<comment> \<open>\<open>s.includes(t)\<close>: \<open>t\<close> occurs in \<open>s\<close> as a contiguous run\<close>
  "includesStr [] t = (t = [])"
| "includesStr (c # cs) t = (startsWith (c # cs) t \<or> includesStr cs t)"

fun replaceFirst :: "string \<Rightarrow> string \<Rightarrow> string \<Rightarrow> string" where
  \<comment> \<open>\<open>s.replace(pat, rep)\<close> with a string pattern: only the first occurrence is replaced\<close>
  "replaceFirst [] pat rep = (if pat = [] then rep else [])"
| "replaceFirst (c # cs) pat rep =
     (if startsWith (c # cs) pat then rep @ drop (length pat) (c # cs)
      else c # replaceFirst cs pat rep)"

fun splitOn :: "(char \<Rightarrow> bool) \<Rightarrow> string \<Rightarrow> string list" where
  \<comment> \<open>\<open>s.split(/[...]/)\<close> on a one-character class: empty parts are kept, and the empty
      string splits into one empty part\<close>
  "splitOn sep [] = [[]]"
| "splitOn sep (c # cs) =
     (if sep c then [] # splitOn sep cs
      else (case splitOn sep cs of p # ps \<Rightarrow> (c # p) # ps | [] \<Rightarrow> [[c]]))"

definition digitVal :: "char \<Rightarrow> nat" where
  "digitVal c = of_char c - 48"

definition digitsToNat :: "string \<Rightarrow> nat" where
  "digitsToNat ds = foldl (\<lambda>acc c. 10 * acc + digitVal c) 0 ds"

definition parseInt :: "string \<Rightarrow> int option" where
  \<comment> \<open>\<open>parseInt(s, 10)\<close>: leading white space skipped, one optional sign, then the longest
      run of decimal digits; \<open>None\<close> is NaN (no digit there). Numbers are mathematical
      integers here; the source's are doubles, exact up to 2^53.\<close>
  "parseInt s =
     (let S = dropWhile isWhiteSpace s;
          sign = (case S of c # rest \<Rightarrow> if c = CHR ''-'' then (-1::int) else 1 | [] \<Rightarrow> 1);
          S' = (case S of c # rest \<Rightarrow> if c = CHR ''-'' \<or> c = CHR ''+'' then rest else S | [] \<Rightarrow> S);
          Z = takeWhile isDigit S'
      in if Z = [] then None else Some (sign * int (digitsToNat Z)))"

function natToString :: "nat \<Rightarrow> string" where
  "natToString n =
     (if n < 10 then [char_of (48 + n)] else natToString (n div 10) @ [char_of (48 + n mod 10)])"
  by pat_completeness auto
termination
  by (relation "measure id") auto

declare natToString.simps [simp del]

definition numToString :: "int \<Rightarrow> string" where
  \<comment> \<open>\<open>n.toString()\<close> of an integer: decimal digits, a minus sign when negative (the
      source switches to exponent notation from 10^21 on, beyond the exact range)\<close>
  "numToString n = (if n < 0 then CHR ''-'' # natToString (nat (- n)) else natToString (nat n))"

section \<open>Types\<close>

text \<open>
  \<open>ParsedRow = Record<string, string>\<close>: a row is a dictionary from column name to cell
  text. Reading a column that is not there gives \<open>undefined\<close>, here \<open>None\<close>. Using
  \<open>undefined\<close> as a property name reads the property called "undefined". A dictionary
  holds its own entries only: the names every object inherits (\<open>constructor\<close> and the
  like) are taken not to occur as column names, and a read of such a name from the audit
  state gives no status, as a read of a missing key does. Writing under the inherited
  name \<open>__proto__\<close> is special in the source; \<open>setProp\<close> below models it.
\<close>

type_synonym ParsedRow = "string \<rightharpoonup> string"

definition propKey :: "string option \<Rightarrow> string" where
  "propKey k = (case k of None \<Rightarrow> ''undefined'' | Some c \<Rightarrow> c)"

definition orElse :: "string option \<Rightarrow> string \<Rightarrow> string" where
  \<comment> \<open>\<open>v || d\<close> on text: \<open>undefined\<close> and the empty string are falsy\<close>
  "orElse v d = (case v of None \<Rightarrow> d | Some s \<Rightarrow> if s = [] then d else s)"

datatype AuditStatus = Pending | Verified | Failed

section \<open>Helper functions\<close>

definition normalizeRut :: "string option \<Rightarrow> string" where
  "normalizeRut rut =
     (case rut of None \<Rightarrow> []
      | Some r \<Rightarrow> if r = [] then []
                  else trim (toUpperCase (filter (\<lambda>c. c \<noteq> CHR ''.'' \<and> c \<noteq> CHR ''-'') r)))"

definition normalizeInvoice :: "string option \<Rightarrow> string" where
  "normalizeInvoice invoice =
     (case invoice of None \<Rightarrow> []
      | Some i \<Rightarrow> if i = [] then [] else dropWhile (\<lambda>c. c = CHR ''0'') (trim i))"

definition parseAmount :: "string option \<Rightarrow> int" where
  \<comment> \<open>the numeric branch of the source is for arguments that are numbers already; rows
      hold text, so the argument is a string or \<open>undefined\<close>\<close>
  "parseAmount amt =
     (case amt of None \<Rightarrow> 0
      | Some str \<Rightarrow>
          if str = [] then 0
          else (let clean = filter (\<lambda>c. isDigit c \<or> c = CHR '','' \<or> c = CHR ''.'' \<or> c = CHR ''-'') str;
                    chileanFormat = filter (\<lambda>c. c \<noteq> CHR ''.'') clean
                in (case parseInt chileanFormat of None \<Rightarrow> 0 | Some n \<Rightarrow> n)))"

section \<open>Row validation\<close>

definition invalidKeywords :: "string list" where
  "invalidKeywords =
     [''total'', ''subtotal'', ''suma'', ''libro de compra'', ''ordenado'', ''desde:'',
      ''hasta:'', ''moneda:'', ''per'' @ [CHR 0xED] @ ''odo'', ''periodo'', ''resumen'']"

definition invalidTypes :: "string list" where
  "invalidTypes =
     [''61'', ''56'', ''52'', ''60'', ''nc'', ''n/c'', ''notacredito'', ''notadebito'',
      ''credito'', ''debito'', ''d'' @ [CHR 0xE9] @ ''bito'', ''cr'' @ [CHR 0xE9] @ ''dito'']"

definition tipoClean :: "string \<Rightarrow> string" where
  \<comment> \<open>\<open>tipo.replace('.0', '').replace(/\s+/g, '')\<close>\<close>
  "tipoClean tipo = filter (\<lambda>c. \<not> isWhiteSpace c) (replaceFirst tipo ''.0'' [])"

definition someInvalidType :: "string \<Rightarrow> bool" where
  \<comment> \<open>\<open>invalidTypes.some(t => tipoClean === t || tipoClean.includes(t))\<close>\<close>
  "someInvalidType tc = list_ex (\<lambda>t. tc = t \<or> includesStr tc t) invalidTypes"

definition cell :: "ParsedRow \<Rightarrow> (string \<rightharpoonup> string) \<Rightarrow> string \<Rightarrow> string" where
  \<comment> \<open>\<open>String(row[mapping[k]] || '')\<close>\<close>
  "cell row mapping k = orElse (row (propKey (mapping k))) []"

definition isValidDataRow :: "ParsedRow \<Rightarrow> (string \<rightharpoonup> string) \<Rightarrow> bool" where
  "isValidDataRow row mapping =
     (let factura = trim (cell row mapping ''factura'');
          rut = trim (cell row mapping ''rut'');
          monto = trim (cell row mapping ''monto'');
          nombre = toLowerCase (trim (cell row mapping ''nombre''));
          tipo = toLowerCase (trim (cell row mapping ''tipo''))
      in if factura = [] \<or> factura = ''0'' \<or> factura = ''nan'' \<or> factura = ''null'' then False
         else let rutClean = normalizeRut (Some rut)
         in if rutClean = [] \<or> length rutClean < 7 then False
         else if monto = [] \<or> monto = ''0'' \<or> monto = ''nan'' \<or> monto = ''null'' then False
         else if nombre = [] \<or> nombre = ''nan'' \<or> nombre = ''null'' then False
         else if list_ex (\<lambda>kw. includesStr nombre kw) invalidKeywords then False
         else if length nombre < 3 then False
         else if someInvalidType (tipoClean tipo) then False
         else if includesStr nombre ''nota'' \<and>
                 (includesStr nombre ''credito'' \<or> includesStr nombre (''cr'' @ [CHR 0xE9] @ ''dito''))
              then False
         else let montoNumerico = parseAmount (Some monto)
         in if montoNumerico < 0 then False
         else let rutSinDV = take (length rutClean - 1) rutClean
         in if length rutSinDV < 7 \<or> length rutSinDV > 9 then False
         else if \<not> (rutSinDV \<noteq> [] \<and> list_all isDigit rutSinDV) then False
         else let dv = drop (length rutClean - 1) rutClean
         in if \<not> (length dv = 1 \<and> list_all (\<lambda>c. isDigit c \<or> c = CHR ''K'') dv) then False
         else True)"

subsection \<open>The validator with its failures made explicit\<close>

text \<open>
  The only step of the validator and its helpers that can throw is a method call on a
  value that is \<open>undefined\<close> (a \<open>TypeError\<close>). Here every value that may be
  \<open>undefined\<close> is a \<^typ>\<open>string option\<close>, every method call on such a value is
  \<open>callMethod\<close>, and a throw is the result \<open>Inl TypeError\<close>, which ends the run.
\<close>

datatype error = TypeError

definition callMethod :: "(string \<Rightarrow> 'a) \<Rightarrow> string option \<Rightarrow> error + 'a" where
  \<comment> \<open>\<open>v.f()\<close>: a method of strings called on \<open>v\<close>\<close>
  "callMethod f v = (case v of None \<Rightarrow> Inl TypeError | Some s \<Rightarrow> Inr (f s))"

definition thenE :: "error + 'a \<Rightarrow> ('a \<Rightarrow> error + 'b) \<Rightarrow> error + 'b" where
  \<comment> \<open>sequencing: a throw skips what follows\<close>
  "thenE r k = (case r of Inl e \<Rightarrow> Inl e | Inr x \<Rightarrow> k x)"

definition orElseV :: "string option \<Rightarrow> string \<Rightarrow> string option" where
  \<comment> \<open>\<open>v || d\<close> as a value\<close>
  "orElseV v d = (case v of None \<Rightarrow> Some d | Some s \<Rightarrow> if s = [] then Some d else Some s)"

definition StringV :: "string option \<Rightarrow> string option" where
  \<comment> \<open>\<open>String(v)\<close>: \<open>undefined\<close> becomes the text "undefined"\<close>
  "StringV v = (case v of None \<Rightarrow> Some ''undefined'' | Some s \<Rightarrow> Some s)"

definition normalizeRutE :: "string option \<Rightarrow> error + string" where
  \<comment> \<open>\<open>if (!rut) return ''\<close>, then \<open>rut.replace(...)\<close> with \<open>rut\<close> as the receiver\<close>
  "normalizeRutE rut =
     (if rut = None \<or> rut = Some [] then Inr []
      else callMethod (\<lambda>r. trim (toUpperCase (filter (\<lambda>c. c \<noteq> CHR ''.'' \<and> c \<noteq> CHR ''-'') r))) rut)"

definition isValidDataRowE :: "ParsedRow \<Rightarrow> (string \<rightharpoonup> string) \<Rightarrow> error + bool" where
  "isValidDataRowE row mapping =
     thenE (callMethod trim (StringV (orElseV (row (propKey (mapping ''factura''))) []))) (\<lambda>factura.
     thenE (callMethod trim (StringV (orElseV (row (propKey (mapping ''rut''))) []))) (\<lambda>rut.
     thenE (callMethod trim (StringV (orElseV (row (propKey (mapping ''monto''))) []))) (\<lambda>monto.
     thenE (callMethod (\<lambda>s. toLowerCase (trim s))
              (StringV (orElseV (row (propKey (mapping ''nombre''))) []))) (\<lambda>nombre.
     thenE (callMethod (\<lambda>s. toLowerCase (trim s))
              (StringV (orElseV (row (propKey (mapping ''tipo''))) []))) (\<lambda>tipo.
       if factura = [] \<or> factura = ''0'' \<or> factura = ''nan'' \<or> factura = ''null'' then Inr False
       else thenE (normalizeRutE (Some rut)) (\<lambda>rutClean.
         if rutClean = [] \<or> length rutClean < 7 then Inr False
         else if monto = [] \<or> monto = ''0'' \<or> monto = ''nan'' \<or> monto = ''null'' then Inr False
         else if nombre = [] \<or> nombre = ''nan'' \<or> nombre = ''null'' then Inr False
         else if list_ex (\<lambda>kw. includesStr nombre kw) invalidKeywords then Inr False
         else if length nombre < 3 then Inr False
         else if someInvalidType (tipoClean tipo) then Inr False
         else if includesStr nombre ''nota'' \<and>
                 (includesStr nombre ''credito'' \<or>
                  includesStr nombre (''cr'' @ [CHR 0xE9] @ ''dito''))
              then Inr False
         else if parseAmount (Some monto) < 0 then Inr False
         else let rutSinDV = take (length rutClean - 1) rutClean
         in if length rutSinDV < 7 \<or> length rutSinDV > 9 then Inr False
         else if \<not> (rutSinDV \<noteq> [] \<and> list_all isDigit rutSinDV) then Inr False
         else let dv = drop (length rutClean - 1) rutClean
         in if \<not> (length dv = 1 \<and> list_all (\<lambda>c. isDigit c \<or> c = CHR ''K'') dv) then Inr False
         else Inr True))))))"

section \<open>The monthly summary\<close>

record Group =
  count :: int
  total :: int

definition monthYearOf :: "ParsedRow \<Rightarrow> string" where
  "monthYearOf r =
     (let dateStr = orElse (r ''fecha_val'') [];
          parts = splitOn (\<lambda>c. c = CHR ''-'' \<or> c = CHR ''/'') dateStr
      in if length parts = 3
         then (if length (parts ! 0) = 4 then parts ! 0 @ ''-'' @ parts ! 1
               else parts ! 2 @ ''-'' @ parts ! 1)
         else ''Desconocido'')"

definition addToGroup :: "(string \<times> Group) list \<Rightarrow> ParsedRow \<Rightarrow> (string \<times> Group) list" where
  \<comment> \<open>one round of \<open>records.forEach\<close>. \<open>grouped\<close> is a dictionary that keeps the order in
      which its keys were first written: a new key goes to the end, a known key is
      rewritten in place.\<close>
  "addToGroup grouped r =
     (let monthYear = monthYearOf r;
          g = (case map_of grouped monthYear of
                 None \<Rightarrow> \<lparr>count = 0, total = 0\<rparr>
               | Some g0 \<Rightarrow> g0)
      in AList.update monthYear
           \<lparr>count = count g + 1, total = total g + parseAmount (r ''monto_val'')\<rparr> grouped)"

definition MonthlyStats :: "string comparator \<Rightarrow> ParsedRow list \<Rightarrow> (string \<times> Group) list" where
  \<comment> \<open>\<open>Object.entries(grouped).sort((a,b) => a[0].localeCompare(b[0]))\<close>. The collation of
      \<open>localeCompare\<close> belongs to the platform and its locale, so it is a parameter: any
      comparator of strings. The sort of the source is stable, as this one is.\<close>
  "MonthlyStats localeCompare records =
     Sorting_Algorithms.sort (key fst localeCompare) (foldl addToGroup [] records)"

section \<open>The discrepancy report\<close>

record AnalysisResult =
  softlandTotal :: int
  controlTotal :: int
  missingCount :: int
  missingAmount :: "int option"
  missingRecords :: "ParsedRow list"
  matchedCount :: int
  controlRecords :: "ParsedRow list"
  softlandRecords :: "ParsedRow list"

text \<open>
  \<open>auditState : Record<string, AuditStatus>\<close> is a dictionary with finitely many entries,
  each key once, in the order of first writing: an association list, read with
  \<^const>\<open>map_of\<close> and written with \<^const>\<open>AList.update\<close>.
\<close>

type_synonym AuditState = "(string \<times> AuditStatus) list"

definition verified :: "AuditState \<Rightarrow> int" where
  "verified auditState = int (length (filter (\<lambda>s. s = Verified) (map snd auditState)))"

definition failed :: "AuditState \<Rightarrow> int" where
  "failed auditState = int (length (filter (\<lambda>s. s = Failed) (map snd auditState)))"

definition realMissing :: "AnalysisResult \<Rightarrow> AuditState \<Rightarrow> int" where
  "realMissing result auditState = missingCount result - failed auditState"

definition realMissingAmount :: "AnalysisResult \<Rightarrow> AuditState \<Rightarrow> int" where
  "realMissingAmount result auditState =
     foldl (\<lambda>sum r. sum + parseAmount (r ''monto_val'')) 0
       (filter (\<lambda>r. map_of auditState (propKey (r ''_key'')) \<noteq> Some Failed)
          (missingRecords result))"

definition setProp :: "AuditState \<Rightarrow> string \<Rightarrow> AuditStatus \<Rightarrow> AuditState" where
  \<comment> \<open>\<open>newState[k] = status\<close> on an object built by a literal. Every name becomes an own
      entry, except \<open>__proto__\<close>: unless the object already has an own entry of that name,
      the write goes to the setter that every object inherits, which ignores a value that
      is text, and nothing is stored.\<close>
  "setProp newState k status =
     (if k = ''__proto__'' \<and> map_of newState k = None then newState
      else AList.update k status newState)"

definition handleAuditAction :: "AuditState \<Rightarrow> string list \<Rightarrow> AuditStatus \<Rightarrow> AuditState" where
  "handleAuditAction auditState ids status =
     fold (\<lambda>id newState. setProp newState id status) ids auditState"

definition handleBulkAutoCheck :: "AnalysisResult \<Rightarrow> AuditState \<Rightarrow> string list \<Rightarrow> AuditState" where
  \<comment> \<open>the source also builds the set \<open>controlKeys\<close> here and never reads it. An id is
      written only when a missing record has it as its matching key; the keys of validated
      records begin with the digits of a tax id, so the write is an ordinary one\<close>
  "handleBulkAutoCheck result auditState ids =
     fold (\<lambda>id newState.
            (case find (\<lambda>r. r ''_key'' = Some id) (missingRecords result) of
               None \<Rightarrow> newState
             | Some record \<Rightarrow>
                 (let targetInv = normalizeInvoice (record ''factura_val'');
                      found = list_ex (\<lambda>c. normalizeInvoice (c ''factura_val'') = targetInv)
                                (controlRecords result)
                  in AList.update id (if found then Failed else Verified) newState)))
       ids auditState"

section \<open>Running the reconciliation\<close>

record DataFile =
  name :: string
  data :: "ParsedRow list"
  headers :: "string list"

datatype Tab = Dashboard | Softland | Control

record SchoolState =
  softlandFile :: "DataFile option"
  controlFile :: "DataFile option"
  softlandMapping :: "string \<rightharpoonup> string"
  controlMapping :: "string \<rightharpoonup> string"
  analysis :: "AnalysisResult option"
  auditState :: AuditState
  softlandSearch :: string
  controlSearch :: string
  activeTab :: Tab

definition canonicalMapping :: "string \<rightharpoonup> string" where
  "canonicalMapping =
     map_of [(''factura'', ''factura_val''), (''rut'', ''rut_val''), (''monto'', ''monto_val''),
             (''nombre'', ''nombre_val''), (''fecha'', ''fecha_val''), (''tipo'', ''tipo_val'')]"

definition matchingKey :: "(string \<rightharpoonup> string) \<Rightarrow> ParsedRow \<Rightarrow> string" where
  \<comment> \<open>the template \<open>`${normalizeRut(row[mapping['rut']])}_${normalizeInvoice(row[mapping['factura']])}`\<close>\<close>
  "matchingKey mapping row =
     normalizeRut (row (propKey (mapping ''rut''))) @ ''_'' @
     normalizeInvoice (row (propKey (mapping ''factura'')))"

definition processRow :: "(string \<rightharpoonup> string) \<Rightarrow> nat \<Rightarrow> ParsedRow \<Rightarrow> ParsedRow" where
  \<comment> \<open>the object built by \<open>.map((row, idx) => ...)\<close>: the row's own columns, then the derived
      ones, which win over a column of the same name. \<open>_originalIndex\<close> is a number in the
      source; here it is kept as its decimal text.\<close>
  "processRow mapping idx row =
     row(''factura_val'' \<mapsto> orElse (row (propKey (mapping ''factura''))) [],
         ''rut_val'' \<mapsto> orElse (row (propKey (mapping ''rut''))) [],
         ''monto_val'' \<mapsto>
            numToString (parseAmount (Some (orElse (row (propKey (mapping ''monto''))) ''0''))),
         ''nombre_val'' \<mapsto> orElse (row (propKey (mapping ''nombre''))) [],
         ''fecha_val'' \<mapsto> orElse (row (propKey (mapping ''fecha''))) [],
         ''tipo_val'' \<mapsto> orElse (row (propKey (mapping ''tipo''))) [],
         ''_key'' \<mapsto> matchingKey mapping row,
         ''_originalIndex'' \<mapsto> natToString idx)"

definition processRows :: "ParsedRow list \<Rightarrow> (string \<rightharpoonup> string) \<Rightarrow> ParsedRow list" where
  \<comment> \<open>the third argument of the source, \<open>source\<close>, only labels the log lines\<close>
  "processRows rows mapping =
     filter (\<lambda>r. isValidDataRow r canonicalMapping)
       (map (\<lambda>(idx, row). processRow mapping idx row) (enumerate 0 rows))"

definition numAdd :: "int option \<Rightarrow> int option \<Rightarrow> int option" where
  \<comment> \<open>\<open>+\<close> on numbers, \<open>None\<close> being NaN\<close>
  "numAdd a b = (case (a, b) of (Some x, Some y) \<Rightarrow> Some (x + y) | _ \<Rightarrow> None)"

definition reconcile :: "ParsedRow list \<Rightarrow> ParsedRow list \<Rightarrow> AnalysisResult" where
  \<comment> \<open>the part of \<open>runAnalysis\<close> after the two calls of \<open>processRows\<close>. \<open>parseInt\<close> is called
      there without a radix, on text that \<open>processRow\<close> wrote in decimal.\<close>
  "reconcile softlandProcessed controlProcessed =
     (let controlKeys = set (map (\<lambda>r. r ''_key'') controlProcessed);
          missingRecords = filter (\<lambda>sRow. sRow ''_key'' \<notin> controlKeys) softlandProcessed;
          totalMissingAmount =
            foldl (\<lambda>sum r. numAdd sum (case r ''monto_val'' of None \<Rightarrow> None | Some v \<Rightarrow> parseInt v))
              (Some 0) missingRecords
      in \<lparr>softlandTotal = int (length softlandProcessed),
          controlTotal = int (length controlProcessed),
          missingCount = int (length missingRecords),
          missingAmount = totalMissingAmount,
          missingRecords = missingRecords,
          matchedCount = int (length softlandProcessed) - int (length missingRecords),
          controlRecords = controlProcessed,
          softlandRecords = softlandProcessed\<rparr>)"

definition runAnalysis :: "SchoolState \<Rightarrow> SchoolState" where
  "runAnalysis currentData =
     (case (softlandFile currentData, controlFile currentData) of
        (Some sf, Some cf) \<Rightarrow>
          (let softlandProcessed = processRows (data sf) (softlandMapping currentData);
               controlProcessed = processRows (data cf) (controlMapping currentData)
           in currentData\<lparr>analysis := Some (reconcile softlandProcessed controlProcessed)\<rparr>)
      | _ \<Rightarrow> currentData)"

section \<open>The rule of section 4.2 on document types, as the specification words it\<close>

definition endsWith :: "string \<Rightarrow> string \<Rightarrow> bool" where
  "endsWith s t \<longleftrightarrow> length t \<le> length s \<and> drop (length s - length t) s = t"

definition spec_tipoClean :: "string \<Rightarrow> string" where
  \<comment> \<open>the specification's reading of the cleaning step: a \<^emph>\<open>trailing\<close> \<open>.0\<close> is removed,
      then all white space. The program's own step is \<^const>\<open>tipoClean\<close>.\<close>
  "spec_tipoClean tipo =
     filter (\<lambda>c. \<not> isWhiteSpace c)
       (if endsWith tipo ''.0'' then take (length tipo - 2) tipo else tipo)"

section \<open>Sample inputs\<close>

definition sampleMapping :: "string \<rightharpoonup> string" where
  "sampleMapping =
     map_of [(''factura'', ''Folio''), (''rut'', ''RUT''), (''monto'', ''Total''),
             (''nombre'', ''Proveedor''), (''fecha'', ''Fecha''), (''tipo'', ''Tipo'')]"

definition sampleRow :: "string \<Rightarrow> string \<Rightarrow> string \<Rightarrow> string \<Rightarrow> string \<Rightarrow> string \<Rightarrow> ParsedRow" where
  "sampleRow folio rut monto nombre fecha tipo =
     map_of [(''Folio'', folio), (''RUT'', rut), (''Total'', monto), (''Proveedor'', nombre),
             (''Fecha'', fecha), (''Tipo'', tipo)]"

definition canonRow :: "string \<Rightarrow> string \<Rightarrow> string \<Rightarrow> string \<Rightarrow> ParsedRow" where
  \<comment> \<open>a processed row, cut down to the columns the report reads\<close>
  "canonRow k factura monto fecha =
     map_of [(''_key'', k), (''factura_val'', factura), (''monto_val'', monto),
             (''fecha_val'', fecha)]"

definition sampleState :: SchoolState where
  "sampleState =
     \<lparr>softlandFile = Some \<lparr>name = ''softland.csv'',
          data = [sampleRow ''1045'' ''12.345.678-5'' ''1.500'' ''ACME SPA'' ''01/01/2024'' ''33'',
                  sampleRow ''0'' ''12.345.678-5'' ''500'' ''ACME SPA'' ''02/01/2024'' ''33'',
                  sampleRow ''77'' ''9.876.543-K'' ''2.500'' ''Libreria Sur'' ''03/01/2024'' ''33'',
                  sampleRow ''78'' ''9.876.543-K'' ''900'' ''Libreria Sur'' ''04/01/2024'' ''61''],
          headers = [''Folio'', ''RUT'', ''Total'', ''Proveedor'', ''Fecha'', ''Tipo'']\<rparr>,
      controlFile = Some \<lparr>name = ''control.csv'',
          data = [sampleRow ''001045'' ''12345678-5'' ''1500'' ''Acme Ltda'' ''05/01/2024'' []],
          headers = [''Folio'', ''RUT'', ''Total'', ''Proveedor'', ''Fecha'', ''Tipo'']\<rparr>,
      softlandMapping = sampleMapping,
      controlMapping = sampleMapping,
      analysis = None,
      auditState = [],
      softlandSearch = [],
      controlSearch = [],
      activeTab = Dashboard\<rparr>"

section \<open>Auxiliary facts\<close>

subsection \<open>Dictionaries as association lists\<close>



lemma map_of_fold_update_opt:
  "map_of (fold (\<lambda>id newState. case g id of None \<Rightarrow> newState
                                | Some v \<Rightarrow> AList.update id v newState) ids st) k =
     (if k \<in> set ids then (case g k of None \<Rightarrow> map_of st k | Some v \<Rightarrow> Some v)
      else map_of st k)"
  by (induction ids arbitrary: st) (auto simp: update_conv' split: option.splits)

lemma distinct_setProp:
  "distinct (map fst obj) \<Longrightarrow> distinct (map fst (setProp obj k v))"
  by (simp add: setProp_def distinct_update)

lemma distinct_handleAuditAction:
  "distinct (map fst st) \<Longrightarrow> distinct (map fst (handleAuditAction st ids status))"
  unfolding handleAuditAction_def
  by (induction ids arbitrary: st) (simp_all add: distinct_setProp)

lemma distinct_handleBulkAutoCheck:
  "distinct (map fst st) \<Longrightarrow> distinct (map fst (handleBulkAutoCheck result st ids))"
  unfolding handleBulkAutoCheck_def
  by (induction ids arbitrary: st) (auto simp: distinct_update Let_def split: option.splits)

lemma card_keys_with_status:
  "distinct (map fst al) \<Longrightarrow>
     card {k. map_of al k = Some v} = length (filter (\<lambda>s. s = v) (map snd al))"
proof (induction al)
  case Nil
  then show ?case by simp
next
  case (Cons p al)
  obtain k0 v0 where p: "p = (k0, v0)" by (cases p)
  from Cons.prems p have notin: "k0 \<notin> fst ` set al" and dist: "distinct (map fst al)"
    by auto
  have fin: "finite {k. map_of al k = Some v}"
    by (rule finite_subset [OF _ finite_dom_map_of [of al]]) auto
  have none: "map_of al k0 = None"
    using notin by (simp add: map_of_eq_None_iff)
  have "{k. map_of (p # al) k = Some v} =
        (if v0 = v then insert k0 {k. map_of al k = Some v} else {k. map_of al k = Some v})"
    using none by (auto simp: p)
  moreover have "k0 \<notin> {k. map_of al k = Some v}"
    using none by simp
  ultimately show ?case
    using Cons.IH [OF dist] fin by (simp add: p)
qed

lemma foldl_add_sum_list:
  "foldl (\<lambda>sum r. sum + f r) a xs = a + sum_list (map f xs)" for a :: int
  by (induction xs arbitrary: a) auto

lemma count_list_filter:
  "count_list (filter P xs) x = (if P x then count_list xs x else 0)"
  by (induction xs) auto

subsection \<open>The reconciliation\<close>

lemma missingRecords_reconcile:
  "missingRecords (reconcile S C) = filter (\<lambda>s. s ''_key'' \<notin> (\<lambda>c. c ''_key'') ` set C) S"
  by (simp add: reconcile_def Let_def)

lemma controlRecords_reconcile:
  "controlRecords (reconcile S C) = C"
  by (simp add: reconcile_def Let_def)

subsection \<open>Occurrences of one string in another\<close>

lemma startsWith_iff: "startsWith s t \<longleftrightarrow> (\<exists>q. s = t @ q)"
  by (induction s t rule: startsWith.induct) auto

lemma includesStr_iff: "includesStr s t \<longleftrightarrow> (\<exists>p q. s = p @ t @ q)"
proof (induction s)
  case Nil
  then show ?case by simp
next
  case (Cons c cs)
  show ?case
  proof
    assume "includesStr (c # cs) t"
    then consider "startsWith (c # cs) t" | "includesStr cs t" by auto
    then show "\<exists>p q. c # cs = p @ t @ q"
    proof cases
      case 1
      then obtain q where "c # cs = t @ q" by (auto simp: startsWith_iff)
      then have "c # cs = [] @ t @ q" by simp
      then show ?thesis by blast
    next
      case 2
      then obtain p q where "cs = p @ t @ q" using Cons.IH by blast
      then have "c # cs = (c # p) @ t @ q" by simp
      then show ?thesis by blast
    qed
  next
    assume "\<exists>p q. c # cs = p @ t @ q"
    then obtain p q where pq: "c # cs = p @ t @ q" by blast
    show "includesStr (c # cs) t"
    proof (cases p)
      case Nil
      then have "startsWith (c # cs) t" using pq by (auto simp: startsWith_iff)
      then show ?thesis by simp
    next
      case (Cons x p')
      then have "cs = p' @ t @ q" using pq by simp
      then have "includesStr cs t" using Cons.IH by blast
      then show ?thesis by simp
    qed
  qed
qed

lemma occurrence_survives_cut:
  assumes eq: "a @ ''.0'' @ b = p @ v @ q"
    and nodot: "CHR ''.'' \<notin> set v" and ne: "v \<noteq> []" and nozero: "hd v \<noteq> CHR ''0''"
  shows "\<exists>p' q'. a @ b = p' @ v @ q'"
proof -
  from eq consider us where "a = p @ us" "us @ ''.0'' @ b = v @ q"
    | us where "a @ us = p" "''.0'' @ b = us @ v @ q"
    by (auto simp: append_eq_append_conv2)
  then show ?thesis
  proof cases
    case 1
    from 1(2) consider ws where "us = v @ ws"
      | ws where "us @ ws = v" "''.0'' @ b = ws @ q"
      by (auto simp: append_eq_append_conv2)
    then show ?thesis
    proof cases
      case 1
      with \<open>a = p @ us\<close> have "a @ b = p @ v @ (ws @ b)" by simp
      then show ?thesis by blast
    next
      case 2
      show ?thesis
      proof (cases ws)
        case Nil
        with 2 \<open>a = p @ us\<close> have "a @ b = p @ v @ b" by simp
        then show ?thesis by blast
      next
        case (Cons w ws')
        with 2(2) have "w = CHR ''.''" by simp
        with Cons 2(1) have "CHR ''.'' \<in> set v" by auto
        with nodot show ?thesis by contradiction
      qed
    qed
  next
    case 2
    show ?thesis
    proof (cases us)
      case Nil
      with 2(2) ne have "hd v = CHR ''.''" by (cases v) auto
      with ne have "CHR ''.'' \<in> set v" by (cases v) auto
      with nodot show ?thesis by contradiction
    next
      case (Cons u us')
      note c1 = this
      show ?thesis
      proof (cases us')
        case Nil
        with c1 2(2) ne have "hd v = CHR ''0''" by (cases v) auto
        with nozero show ?thesis by contradiction
      next
        case (Cons u' r)
        with c1 2(2) have "b = r @ v @ q" by simp
        then have "a @ b = (a @ r) @ v @ q" by simp
        then show ?thesis by blast
      qed
    qed
  qed
qed

lemma replaceFirst_cases:
  "replaceFirst s pat [] = s \<or> (\<exists>a b. s = a @ pat @ b \<and> replaceFirst s pat [] = a @ b)"
proof (induction s)
  case Nil
  then show ?case by simp
next
  case (Cons c cs)
  show ?case
  proof (cases "startsWith (c # cs) pat")
    case True
    then obtain q where q: "c # cs = pat @ q" by (auto simp: startsWith_iff)
    have "replaceFirst (c # cs) pat [] = drop (length pat) (c # cs)"
      using True by simp
    also have "\<dots> = q" unfolding q by simp
    finally have "c # cs = [] @ pat @ q \<and> replaceFirst (c # cs) pat [] = [] @ q"
      using q by simp
    then show ?thesis by blast
  next
    case False
    from Cons.IH show ?thesis
    proof
      assume "replaceFirst cs pat [] = cs"
      with False show ?thesis by simp
    next
      assume "\<exists>a b. cs = a @ pat @ b \<and> replaceFirst cs pat [] = a @ b"
      then obtain a b where "cs = a @ pat @ b" "replaceFirst cs pat [] = a @ b" by blast
      with False have "c # cs = (c # a) @ pat @ b \<and> replaceFirst (c # cs) pat [] = (c # a) @ b"
        by simp
      then show ?thesis by blast
    qed
  qed
qed

lemma invalidTypes_shape:
  "t \<in> set invalidTypes \<Longrightarrow> CHR ''.'' \<notin> set t \<and> t \<noteq> [] \<and> hd t \<noteq> CHR ''0''"
  by (auto simp: invalidTypes_def)

lemma someInvalidType_iff:
  "someInvalidType tc \<longleftrightarrow> (\<exists>t \<in> set invalidTypes. \<exists>p q. tc = p @ t @ q)"
proof -
  have "tc = t \<Longrightarrow> \<exists>p q. tc = p @ t @ q" for t
    by (metis append_Nil append_Nil2)
  then show ?thesis
    unfolding someInvalidType_def list_ex_iff includesStr_iff by blast
qed

lemma dot0_not_ws: "filter (\<lambda>c. \<not> isWhiteSpace c) ''.0'' = ''.0''"
  by (simp add: isWhiteSpace_def)

lemma tipoClean_keeps_occurrence:
  assumes t: "t \<in> set invalidTypes"
    and occ: "filter (\<lambda>c. \<not> isWhiteSpace c) tipo = p @ t @ q"
  shows "\<exists>p' q'. tipoClean tipo = p' @ t @ q'"
proof -
  from replaceFirst_cases [of tipo "''.0''"] show ?thesis
  proof
    assume "replaceFirst tipo ''.0'' [] = tipo"
    with occ show ?thesis unfolding tipoClean_def by auto
  next
    assume "\<exists>a b. tipo = a @ ''.0'' @ b \<and> replaceFirst tipo ''.0'' [] = a @ b"
    then obtain a b where ab: "tipo = a @ ''.0'' @ b" "replaceFirst tipo ''.0'' [] = a @ b"
      by blast
    let ?f = "filter (\<lambda>c. \<not> isWhiteSpace c)"
    have "?f tipo = ?f a @ ''.0'' @ ?f b"
      unfolding ab(1) by (simp add: isWhiteSpace_def)
    with occ have "?f a @ ''.0'' @ ?f b = p @ t @ q" by simp
    then have "\<exists>p' q'. ?f a @ ?f b = p' @ t @ q'"
      using invalidTypes_shape [OF t] by (intro occurrence_survives_cut) auto
    then show ?thesis unfolding tipoClean_def ab(2) by simp
  qed
qed

lemma spec_tipoClean_prefix:
  "\<exists>r. filter (\<lambda>c. \<not> isWhiteSpace c) tipo = spec_tipoClean tipo @ r"
proof (cases "endsWith tipo ''.0''")
  case True
  have "tipo = take (length tipo - 2) tipo @ drop (length tipo - 2) tipo" by simp
  then have "filter (\<lambda>c. \<not> isWhiteSpace c) tipo =
      filter (\<lambda>c. \<not> isWhiteSpace c) (take (length tipo - 2) tipo) @
      filter (\<lambda>c. \<not> isWhiteSpace c) (drop (length tipo - 2) tipo)"
    by (metis filter_append)
  with True show ?thesis unfolding spec_tipoClean_def by auto
next
  case False
  then show ?thesis unfolding spec_tipoClean_def by simp
qed

lemma spec_excluded_imp_excluded:
  assumes "someInvalidType (spec_tipoClean tipo)"
  shows "someInvalidType (tipoClean tipo)"
proof -
  from assms obtain t p q where t: "t \<in> set invalidTypes" and "spec_tipoClean tipo = p @ t @ q"
    unfolding someInvalidType_iff by blast
  moreover obtain r where "filter (\<lambda>c. \<not> isWhiteSpace c) tipo = spec_tipoClean tipo @ r"
    using spec_tipoClean_prefix by blast
  ultimately have "filter (\<lambda>c. \<not> isWhiteSpace c) tipo = p @ t @ (q @ r)" by simp
  from tipoClean_keeps_occurrence [OF t this] t show ?thesis
    unfolding someInvalidType_iff by blast
qed

subsection \<open>Grouping by month\<close>

lemma distinct_foldl_addToGroup:
  "distinct (map fst g0) \<Longrightarrow> distinct (map fst (foldl addToGroup g0 records))"
  by (induction records arbitrary: g0) (auto simp: addToGroup_def Let_def distinct_update)

lemma map_of_addToGroup:
  "map_of (addToGroup g0 r) k =
     (if monthYearOf r = k
      then Some \<lparr>count = count (case map_of g0 k of None \<Rightarrow> \<lparr>count = 0, total = 0\<rparr>
                                 | Some g \<Rightarrow> g) + 1,
                 total = total (case map_of g0 k of None \<Rightarrow> \<lparr>count = 0, total = 0\<rparr>
                                 | Some g \<Rightarrow> g)
                         + parseAmount (r ''monto_val'')\<rparr>
      else map_of g0 k)"
  by (auto simp: addToGroup_def Let_def update_conv')

lemma map_of_foldl_addToGroup:
  "map_of (foldl addToGroup g0 records) k =
     (let rs = filter (\<lambda>r. monthYearOf r = k) records;
          g = (case map_of g0 k of None \<Rightarrow> \<lparr>count = 0, total = 0\<rparr> | Some g \<Rightarrow> g)
      in if rs = [] then map_of g0 k
         else Some \<lparr>count = count g + int (length rs),
                    total = total g + (\<Sum>r \<leftarrow> rs. parseAmount (r ''monto_val''))\<rparr>)"
proof (induction records arbitrary: g0)
  case Nil
  then show ?case by simp
next
  case (Cons r records)
  show ?case
    unfolding foldl_Cons Cons.IH [of "addToGroup g0 r"] map_of_addToGroup
    by (auto simp: Let_def split: option.splits)
qed

lemma map_of_grouped:
  "map_of (foldl addToGroup [] records) k =
     (if filter (\<lambda>r. monthYearOf r = k) records = [] then None
      else Some \<lparr>count = int (length (filter (\<lambda>r. monthYearOf r = k) records)),
                 total = (\<Sum>r \<leftarrow> filter (\<lambda>r. monthYearOf r = k) records.
                            parseAmount (r ''monto_val''))\<rparr>)"
  unfolding map_of_foldl_addToGroup by (simp add: Let_def)

lemma monthYearOf_shape:
  "monthYearOf r =
     (case splitOn (\<lambda>c. c = CHR ''-'' \<or> c = CHR ''/'') (orElse (r ''fecha_val'') []) of
        [a, b, c] \<Rightarrow> if length a = 4 then a @ ''-'' @ b else c @ ''-'' @ b
      | _ \<Rightarrow> ''Desconocido'')"
  by (auto simp: monthYearOf_def Let_def split: list.splits)

subsection \<open>The validator, rule by rule\<close>

lemma excluded_type_rejected:
  "someInvalidType (tipoClean (toLowerCase (trim (cell row mapping ''tipo'')))) \<Longrightarrow>
     \<not> isValidDataRow row mapping"
  by (simp add: isValidDataRow_def Let_def)

lemma validity_without_type:
  assumes "\<not> someInvalidType (tipoClean (toLowerCase (trim (cell row1 mapping ''tipo''))))"
    and "\<not> someInvalidType (tipoClean (toLowerCase (trim (cell row2 mapping ''tipo''))))"
    and "\<forall>k \<in> set [''factura'', ''rut'', ''monto'', ''nombre''].
           cell row1 mapping k = cell row2 mapping k"
  shows "isValidDataRow row1 mapping = isValidDataRow row2 mapping"
  using assms by (simp add: isValidDataRow_def Let_def)

lemma callMethod_Some: "callMethod f (Some s) = Inr (f s)"
  by (simp add: callMethod_def)

lemma thenE_Inr: "thenE (Inr x) k = k x"
  by (simp add: thenE_def)

lemma isValidDataRowE_eq:
  "isValidDataRowE row mapping = Inr (isValidDataRow row mapping)"
proof -
  have cellV: "StringV (orElseV (row (propKey (mapping k))) []) = Some (cell row mapping k)" for k
    by (simp add: StringV_def orElseV_def cell_def orElse_def split: option.splits)
  have rutE: "normalizeRutE (Some r) = Inr (normalizeRut (Some r))" for r
    by (simp add: normalizeRutE_def normalizeRut_def callMethod_def)
  show ?thesis
    unfolding isValidDataRowE_def isValidDataRow_def cellV callMethod_Some thenE_Inr rutE Let_def
    by (simp only: if_distrib [where f = Inr])
qed

lemma trim_Nil: "trim [] = []"
  by (simp add: trim_def)

lemma cell_empty: "cell Map.empty mapping k = []"
  by (simp add: cell_def orElse_def)

lemma take_drop_last:
  "xs \<noteq> [] \<Longrightarrow> take (length xs - 1) xs = butlast xs \<and> drop (length xs - 1) xs = [last xs]"
  by (induction xs rule: rev_induct) auto

section \<open>Reconciliation: the missing records\<close>

text \<open>
  C1. For every pair of validated record lists \<open>S\<close> (softland) and \<open>C\<close> (control), the
  \<open>missingRecords\<close> of the reconciliation are exactly the records of \<open>S\<close> whose matching
  key \<open>_key\<close> is not among the matching keys of \<open>C\<close>. Rows of \<open>S\<close> with the same key are
  not merged: each row is tested on its own, so a record occurs among the missing ones as
  often as it occurs in \<open>S\<close>, or not at all. The lists that \<open>runAnalysis\<close> reconciles are
  the validated ones, \<open>processRows\<close> of each file.
\<close>

theorem reconcile_missing_is_key_difference:
  "missingRecords (reconcile S C) = filter (\<lambda>s. \<not> (\<exists>c \<in> set C. c ''_key'' = s ''_key'')) S
   \<and> set (missingRecords (reconcile S C)) =
       {s \<in> set S. s ''_key'' \<notin> (\<lambda>c. c ''_key'') ` set C}
   \<and> (\<forall>s. count_list (missingRecords (reconcile S C)) s =
          (if s ''_key'' \<in> (\<lambda>c. c ''_key'') ` set C then 0 else count_list S s))
   \<and> (softlandFile st = Some sf \<and> controlFile st = Some cf \<longrightarrow>
        analysis (runAnalysis st) =
          Some (reconcile (processRows (data sf) (softlandMapping st))
                          (processRows (data cf) (controlMapping st))))"
proof -
  note m = missingRecords_reconcile [of S C]
  have "missingRecords (reconcile S C) =
          filter (\<lambda>s. \<not> (\<exists>c \<in> set C. c ''_key'' = s ''_key'')) S"
    unfolding m by (rule filter_cong) (auto simp: image_iff)
  moreover have "set (missingRecords (reconcile S C)) =
          {s \<in> set S. s ''_key'' \<notin> (\<lambda>c. c ''_key'') ` set C}"
    unfolding m by auto
  moreover have "\<forall>s. count_list (missingRecords (reconcile S C)) s =
          (if s ''_key'' \<in> (\<lambda>c. c ''_key'') ` set C then 0 else count_list S s)"
    unfolding m by (simp add: count_list_filter)
  moreover have "softlandFile st = Some sf \<and> controlFile st = Some cf \<longrightarrow>
        analysis (runAnalysis st) =
          Some (reconcile (processRows (data sf) (softlandMapping st))
                          (processRows (data cf) (controlMapping st)))"
    by (simp add: runAnalysis_def Let_def)
  ultimately show ?thesis by blast
qed

theorem reconcile_missing_is_key_difference_witness:
  "map (\<lambda>r. r ''_key'')
     (missingRecords
        (reconcile [canonRow ''111111111_1'' ''1'' ''100'' ''01/02/2024'',
                    canonRow ''111111111_2'' ''2'' ''200'' ''02/02/2024'',
                    canonRow ''222222222_5'' ''5'' ''500'' ''03/02/2024'',
                    canonRow ''111111111_2'' ''002'' ''250'' ''04/02/2024'']
                   [canonRow ''222222222_5'' ''05'' ''500'' ''03/02/2024'',
                    canonRow ''333333333_9'' ''9'' ''900'' ''05/02/2024'']))
   = [Some ''111111111_1'', Some ''111111111_2'', Some ''111111111_2'']
   \<and> (\<exists>sf cf. softlandFile sampleState = Some sf \<and> controlFile sampleState = Some cf \<and>
         analysis (runAnalysis sampleState) =
           Some (reconcile (processRows (data sf) (softlandMapping sampleState))
                           (processRows (data cf) (controlMapping sampleState))))"
proof -
  obtain sf cf where f: "softlandFile sampleState = Some sf" "controlFile sampleState = Some cf"
    by (simp add: sampleState_def)
  note inst = reconcile_missing_is_key_difference [of _ _ sampleState sf cf]
  from inst f have "analysis (runAnalysis sampleState) =
           Some (reconcile (processRows (data sf) (softlandMapping sampleState))
                           (processRows (data cf) (controlMapping sampleState)))"
    by blast
  with f have "\<exists>sf cf. softlandFile sampleState = Some sf \<and> controlFile sampleState = Some cf \<and>
         analysis (runAnalysis sampleState) =
           Some (reconcile (processRows (data sf) (softlandMapping sampleState))
                           (processRows (data cf) (controlMapping sampleState)))"
    by blast
  moreover have "map (\<lambda>r. r ''_key'')
     (missingRecords
        (reconcile [canonRow ''111111111_1'' ''1'' ''100'' ''01/02/2024'',
                    canonRow ''111111111_2'' ''2'' ''200'' ''02/02/2024'',
                    canonRow ''222222222_5'' ''5'' ''500'' ''03/02/2024'',
                    canonRow ''111111111_2'' ''002'' ''250'' ''04/02/2024'']
                   [canonRow ''222222222_5'' ''05'' ''500'' ''03/02/2024'',
                    canonRow ''333333333_9'' ''9'' ''900'' ''05/02/2024'']))
   = [Some ''111111111_1'', Some ''111111111_2'', Some ''111111111_2'']"
    unfolding conjunct1 [OF inst] by (simp add: canonRow_def)
  ultimately show ?thesis by blast
qed

section \<open>Reconciliation: the counts\<close>

text \<open>
  C2. Every \<open>AnalysisResult\<close> that a reconciliation run produces satisfies:
  \<open>missingCount\<close> is the length of \<open>missingRecords\<close>; every record of \<open>missingRecords\<close> has a
  matching key that no record of \<open>controlRecords\<close> has; and \<open>matchedCount + missingCount\<close>
  is \<open>softlandTotal\<close>, the number of softland records left by the validity filter. A run
  with both files loaded does produce a result.
\<close>

theorem runAnalysis_result_invariants:
  assumes "softlandFile st = Some sf" and "controlFile st = Some cf"
  shows "\<exists>a. analysis (runAnalysis st) = Some a
            \<and> missingCount a = int (length (missingRecords a))
            \<and> (\<forall>r \<in> set (missingRecords a).
                  r ''_key'' \<notin> (\<lambda>c. c ''_key'') ` set (controlRecords a))
            \<and> matchedCount a + missingCount a = softlandTotal a
            \<and> softlandTotal a = int (length (processRows (data sf) (softlandMapping st)))"
  using assms by (simp add: runAnalysis_def reconcile_def Let_def)

theorem runAnalysis_result_invariants_witness:
  "\<exists>a. analysis (runAnalysis sampleState) = Some a
       \<and> missingCount a = int (length (missingRecords a))
       \<and> (\<forall>r \<in> set (missingRecords a).
             r ''_key'' \<notin> (\<lambda>c. c ''_key'') ` set (controlRecords a))
       \<and> matchedCount a + missingCount a = softlandTotal a
       \<and> softlandTotal a = 2"
proof -
  obtain sf cf where f: "softlandFile sampleState = Some sf" "controlFile sampleState = Some cf"
    and d: "data sf = [sampleRow ''1045'' ''12.345.678-5'' ''1.500'' ''ACME SPA'' ''01/01/2024'' ''33'',
                  sampleRow ''0'' ''12.345.678-5'' ''500'' ''ACME SPA'' ''02/01/2024'' ''33'',
                  sampleRow ''77'' ''9.876.543-K'' ''2.500'' ''Libreria Sur'' ''03/01/2024'' ''33'',
                  sampleRow ''78'' ''9.876.543-K'' ''900'' ''Libreria Sur'' ''04/01/2024'' ''61'']"
    and m: "softlandMapping sampleState = sampleMapping"
    by (simp add: sampleState_def)
  have "length (processRows [sampleRow ''1045'' ''12.345.678-5'' ''1.500'' ''ACME SPA'' ''01/01/2024'' ''33'',
                  sampleRow ''0'' ''12.345.678-5'' ''500'' ''ACME SPA'' ''02/01/2024'' ''33'',
                  sampleRow ''77'' ''9.876.543-K'' ''2.500'' ''Libreria Sur'' ''03/01/2024'' ''33'',
                  sampleRow ''78'' ''9.876.543-K'' ''900'' ''Libreria Sur'' ''04/01/2024'' ''61'']
            sampleMapping) = 2"
    by code_simp
  with runAnalysis_result_invariants [OF f] d m show ?thesis by simp
qed

section \<open>The validator is total and fails closed\<close>

text \<open>
  C3, as the specification states it: \<open>isValidDataRow\<close> is a total, pure boolean function
  over any input shaped like a canonical record; on every row, also one with missing,
  empty or malformed fields, it returns true or false without throwing; and on any
  malformed or empty input record it returns false. The last part fails: a record whose
  invoice is the spreadsheet error text \<open>#REF!\<close>, whose supplier name is \<open>???\<close>, whose
  date cannot be read and whose type is \<open>??\<close> is accepted, as a canonical record and
  through \<open>processRows\<close>; and the validator alone accepts the amount text \<open>abc\<close>.
\<close>

theorem isValidDataRow_accepts_malformed_counterexample:
  "isValidDataRow
     (processRow sampleMapping 0
        (sampleRow ''#REF!'' ''12.345.678-5'' ''1.500'' ''???'' ''not a date'' ''??''))
     canonicalMapping
   \<and> length (processRows
        [sampleRow ''#REF!'' ''12.345.678-5'' ''1.500'' ''???'' ''not a date'' ''??'']
        sampleMapping) = 1
   \<and> isValidDataRow
       (sampleRow ''#REF!'' ''12.345.678-5'' ''abc'' ''???'' ''not a date'' ''??'')
       sampleMapping"
  by code_simp

text \<open>
  C3, amended: \<open>isValidDataRow\<close> is a total, pure boolean function of the row and the
  mapping. On every row, also one with missing, empty or malformed fields, and on every
  mapping, also an incomplete one, it returns true or false without throwing: with every
  method call on a value that may be \<open>undefined\<close> modelled as a possible \<open>TypeError\<close>, the
  run never ends in one, and its result is the value of the pure function. It returns
  false on the empty record and on every record malformed in what it examines: the
  invoice, tax id, amount or supplier name is missing or blank, the invoice or amount is
  one of the placeholders \<open>0\<close>, \<open>nan\<close>, \<open>null\<close>, the name is such a placeholder or,
  lower-cased, shorter than three characters, or the normalised tax id is not seven to
  nine digits followed by one digit or \<open>K\<close>. Malformed content it does not examine (free
  text in the invoice or the type, the date) does not make it return false.
\<close>

theorem isValidDataRow_total_and_fails_closed:
  "isValidDataRowE row mapping = Inr (isValidDataRow row mapping)
   \<and> \<not> isValidDataRow Map.empty mapping
   \<and> (trim (cell row mapping ''factura'') \<in> {[], ''0'', ''nan'', ''null''}
      \<or> trim (cell row mapping ''rut'') = []
      \<or> trim (cell row mapping ''monto'') \<in> {[], ''0'', ''nan'', ''null''}
      \<or> toLowerCase (trim (cell row mapping ''nombre'')) \<in> {[], ''nan'', ''null''}
      \<or> length (toLowerCase (trim (cell row mapping ''nombre''))) < 3
      \<or> length (normalizeRut (Some (trim (cell row mapping ''rut'')))) < 8
      \<or> 10 < length (normalizeRut (Some (trim (cell row mapping ''rut''))))
      \<or> \<not> list_all isDigit (butlast (normalizeRut (Some (trim (cell row mapping ''rut'')))))
      \<or> \<not> (isDigit (last (normalizeRut (Some (trim (cell row mapping ''rut''))))) \<or>
             last (normalizeRut (Some (trim (cell row mapping ''rut'')))) = CHR ''K'')
      \<longrightarrow> \<not> isValidDataRow row mapping)"
proof -
  have empty: "\<not> isValidDataRow Map.empty mapping"
    by (simp add: isValidDataRow_def cell_empty trim_Nil)
  define rc where "rc = normalizeRut (Some (trim (cell row mapping ''rut'')))"
  have blank_rut: "trim (cell row mapping ''rut'') = [] \<Longrightarrow> rc = []"
    by (simp add: rc_def normalizeRut_def)
  have shape: "\<not> isValidDataRow row mapping"
    if "length rc < 8 \<or> 10 < length rc \<or> \<not> list_all isDigit (butlast rc)
        \<or> \<not> (isDigit (last rc) \<or> last rc = CHR ''K'')"
  proof (cases "rc = []")
    case True
    then show ?thesis by (simp add: isValidDataRow_def Let_def rc_def [symmetric])
  next
    case False
    have tk: "take (length rc - 1) rc = butlast rc"
      and dr: "drop (length rc - 1) rc = [last rc]"
      using take_drop_last [OF False] by simp_all
    have len: "length (butlast rc) < 7 \<longleftrightarrow> length rc < 8"
      "length (butlast rc) > 9 \<longleftrightarrow> 10 < length rc"
      using False by auto
    from that len show ?thesis
      unfolding isValidDataRow_def Let_def rc_def [symmetric] tk dr
      by auto
  qed
  have fields: "\<not> isValidDataRow row mapping"
    if "trim (cell row mapping ''factura'') \<in> {[], ''0'', ''nan'', ''null''}
      \<or> trim (cell row mapping ''monto'') \<in> {[], ''0'', ''nan'', ''null''}
      \<or> toLowerCase (trim (cell row mapping ''nombre'')) \<in> {[], ''nan'', ''null''}
      \<or> length (toLowerCase (trim (cell row mapping ''nombre''))) < 3"
    using that unfolding isValidDataRow_def Let_def by (auto simp: toLowerCase_def)
  have closed: "trim (cell row mapping ''factura'') \<in> {[], ''0'', ''nan'', ''null''}
      \<or> trim (cell row mapping ''rut'') = []
      \<or> trim (cell row mapping ''monto'') \<in> {[], ''0'', ''nan'', ''null''}
      \<or> toLowerCase (trim (cell row mapping ''nombre'')) \<in> {[], ''nan'', ''null''}
      \<or> length (toLowerCase (trim (cell row mapping ''nombre''))) < 3
      \<or> length rc < 8
      \<or> 10 < length rc
      \<or> \<not> list_all isDigit (butlast rc)
      \<or> \<not> (isDigit (last rc) \<or> last rc = CHR ''K'')
      \<longrightarrow> \<not> isValidDataRow row mapping"
    using blank_rut shape fields by (metis list.size(3) zero_less_numeral)
  from isValidDataRowE_eq empty closed show ?thesis
    unfolding rc_def [symmetric] by (intro conjI)
qed

theorem isValidDataRow_total_and_fails_closed_witness:
  "\<not> isValidDataRow (sampleRow ''1045'' [] ''1.500'' ''ACME SPA'' ''01/01/2024'' ''33'') sampleMapping
   \<and> isValidDataRowE (sampleRow ''1045'' [] ''1.500'' ''ACME SPA'' ''01/01/2024'' ''33'') sampleMapping
       = Inr False
   \<and> \<not> isValidDataRow (sampleRow ''1045'' ''12.345.678-5'' ''1.500'' ''ACME SPA'' ''01/01/2024'' ''33'')
         Map.empty
   \<and> \<not> isValidDataRow (sampleRow ''1045'' ''12.345.67X-5'' ''1.500'' ''ACME SPA'' ''01/01/2024'' ''33'')
         sampleMapping"
proof -
  let ?a = "sampleRow ''1045'' [] ''1.500'' ''ACME SPA'' ''01/01/2024'' ''33''"
  let ?b = "sampleRow ''1045'' ''12.345.678-5'' ''1.500'' ''ACME SPA'' ''01/01/2024'' ''33''"
  let ?c = "sampleRow ''1045'' ''12.345.67X-5'' ''1.500'' ''ACME SPA'' ''01/01/2024'' ''33''"
  have 1: "trim (cell ?a sampleMapping ''rut'') = []"
    by code_simp
  have 2: "trim (cell ?b Map.empty ''factura'') \<in> {[], ''0'', ''nan'', ''null''}"
    by code_simp
  have 3: "\<not> list_all isDigit (butlast (normalizeRut (Some (trim (cell ?c sampleMapping ''rut'')))))"
    by code_simp
  note ia = isValidDataRow_total_and_fails_closed [where row = ?a and mapping = sampleMapping]
  note ib = isValidDataRow_total_and_fails_closed [where row = ?b and mapping = Map.empty]
  note ic = isValidDataRow_total_and_fails_closed [where row = ?c and mapping = sampleMapping]
  from 1 ia have a: "\<not> isValidDataRow ?a sampleMapping" by blast
  from ia have "isValidDataRowE ?a sampleMapping = Inr (isValidDataRow ?a sampleMapping)"
    by (rule conjunct1)
  with a have e: "isValidDataRowE ?a sampleMapping = Inr False" by simp
  from 2 ib have b: "\<not> isValidDataRow ?b Map.empty" by blast
  from 3 ic have c: "\<not> isValidDataRow ?c sampleMapping" by blast
  from a e b c show ?thesis by (intro conjI)
qed

section \<open>The rule on document types\<close>

text \<open>
  C5, as the specification states it: the validator rejects a row when its document
  type (trimmed, lower-cased), after removing a trailing \<open>.0\<close> and all white space,
  equals or contains an element of the vocabulary \<open>61, 56, 52, 60, nc, n/c, notacredito,
  notadebito, credito, debito\<close> (with and without accents); a row with type \<open>61\<close> is
  rejected; and a row whose type does not end in \<open>.0\<close> and matches none of the vocabulary
  passes this rule. The last part fails: the program removes the first \<open>.0\<close> wherever it
  stands, so the type \<open>6.01\<close>, which does not end in \<open>.0\<close> and contains no element of the
  vocabulary, is cleaned to \<open>61\<close> and the row is rejected, while the same row with type
  \<open>33\<close> is accepted.
\<close>

theorem document_type_rule_counterexample:
  "\<not> endsWith ''6.01'' ''.0''
   \<and> \<not> someInvalidType (spec_tipoClean ''6.01'')
   \<and> someInvalidType (tipoClean ''6.01'')
   \<and> isValidDataRow (sampleRow ''1045'' ''12.345.678-5'' ''1.500'' ''ACME SPA'' ''01/01/2024'' ''33'')
         sampleMapping
   \<and> \<not> isValidDataRow (sampleRow ''1045'' ''12.345.678-5'' ''1.500'' ''ACME SPA'' ''01/01/2024'' ''6.01'')
         sampleMapping"
  by code_simp

text \<open>
  C5, amended: the validator rejects a row when its document type (trimmed, lower-cased),
  after removing a trailing \<open>.0\<close> and all white space, equals or contains an element of
  the vocabulary, and also when it does so after removing its first \<open>.0\<close>, wherever that
  stands, and all white space, which is the cleaning the program applies. A row whose
  type, cleaned the program's way, contains no element of the vocabulary passes this
  rule: it is valid exactly when any row with the same invoice, tax id, amount and name
  and a type that passes is.
\<close>

theorem document_type_rule:
  "(someInvalidType (spec_tipoClean (toLowerCase (trim (cell row mapping ''tipo''))))
      \<longrightarrow> \<not> isValidDataRow row mapping)
   \<and> (someInvalidType (tipoClean (toLowerCase (trim (cell row mapping ''tipo''))))
      \<longrightarrow> \<not> isValidDataRow row mapping)
   \<and> (\<not> someInvalidType (tipoClean (toLowerCase (trim (cell row mapping ''tipo''))))
      \<and> \<not> someInvalidType (tipoClean (toLowerCase (trim (cell row' mapping ''tipo''))))
      \<and> (\<forall>k \<in> set [''factura'', ''rut'', ''monto'', ''nombre''].
            cell row mapping k = cell row' mapping k)
      \<longrightarrow> isValidDataRow row mapping = isValidDataRow row' mapping)"
  using spec_excluded_imp_excluded excluded_type_rejected validity_without_type
  by blast

theorem document_type_rule_witness:
  "\<not> isValidDataRow (sampleRow ''1045'' ''12.345.678-5'' ''1.500'' ''ACME SPA'' ''01/01/2024'' ''61'')
       sampleMapping
   \<and> \<not> isValidDataRow (sampleRow ''1045'' ''12.345.678-5'' ''1.500'' ''ACME SPA'' ''01/01/2024'' '' N C.0'')
       sampleMapping
   \<and> isValidDataRow (sampleRow ''1045'' ''12.345.678-5'' ''1.500'' ''ACME SPA'' ''01/01/2024'' ''33.0'')
       sampleMapping"
proof -
  let ?row = "sampleRow ''1045'' ''12.345.678-5'' ''1.500'' ''ACME SPA'' ''01/01/2024''"
  have 1: "someInvalidType (spec_tipoClean (toLowerCase (trim (cell (?row ''61'') sampleMapping ''tipo''))))"
    by code_simp
  have 2: "someInvalidType (spec_tipoClean (toLowerCase (trim (cell (?row '' N C.0'') sampleMapping ''tipo''))))"
    by code_simp
  have 3: "\<not> someInvalidType (tipoClean (toLowerCase (trim (cell (?row ''33.0'') sampleMapping ''tipo''))))"
    "\<not> someInvalidType (tipoClean (toLowerCase (trim (cell (?row ''33'') sampleMapping ''tipo''))))"
    "\<forall>k \<in> set [''factura'', ''rut'', ''monto'', ''nombre''].
        cell (?row ''33.0'') sampleMapping k = cell (?row ''33'') sampleMapping k"
    by code_simp+
  have 4: "isValidDataRow (?row ''33'') sampleMapping"
    by code_simp
  from 1 document_type_rule [where row = "?row ''61''" and mapping = sampleMapping]
  have "\<not> isValidDataRow (?row ''61'') sampleMapping" by blast
  moreover from 2 document_type_rule [where row = "?row '' N C.0''" and mapping = sampleMapping]
  have "\<not> isValidDataRow (?row '' N C.0'') sampleMapping" by blast
  moreover from 3 4 document_type_rule [where row = "?row ''33.0''" and row' = "?row ''33''"
                                           and mapping = sampleMapping]
  have "isValidDataRow (?row ''33.0'') sampleMapping" by blast
  ultimately show ?thesis by blast
qed

section \<open>Validity does not read the date\<close>

text \<open>
  C9. Validity is independent of the date: two candidate rows that agree on the mapped
  \<open>factura\<close>, \<open>rut\<close>, \<open>monto\<close>, \<open>nombre\<close> and \<open>tipo\<close> values get the same answer from
  \<open>isValidDataRow\<close>, whatever their \<open>fecha\<close> values and their other columns are.
\<close>

theorem validity_ignores_date:
  assumes "\<forall>k \<in> set [''factura'', ''rut'', ''monto'', ''nombre'', ''tipo''].
             cell row1 mapping k = cell row2 mapping k"
  shows "isValidDataRow row1 mapping = isValidDataRow row2 mapping"
  using assms by (simp add: isValidDataRow_def)

theorem validity_ignores_date_witness:
  "isValidDataRow
     ((sampleRow ''1045'' ''12.345.678-5'' ''1.500'' ''ACME SPA'' ''not a date'' ''33'')
        (''Glosa'' \<mapsto> ''x''))
     sampleMapping"
proof -
  let ?a = "sampleRow ''1045'' ''12.345.678-5'' ''1.500'' ''ACME SPA'' ''01/01/2024'' ''33''"
  let ?b = "(sampleRow ''1045'' ''12.345.678-5'' ''1.500'' ''ACME SPA'' ''not a date'' ''33'')
              (''Glosa'' \<mapsto> ''x'')"
  have agree: "\<forall>k \<in> set [''factura'', ''rut'', ''monto'', ''nombre'', ''tipo''].
                 cell ?a sampleMapping k = cell ?b sampleMapping k"
    by code_simp
  have "isValidDataRow ?a sampleMapping"
    by code_simp
  with validity_ignores_date [OF agree] show ?thesis by simp
qed

section \<open>Invoice numbers made of zeros\<close>

text \<open>
  C10. For every non-empty text that, once trimmed, consists of the character \<open>0\<close> only,
  \<open>normalizeInvoice\<close> returns the empty string. Hence two rows with the same tax-id
  field whose invoice fields are all-zero texts, \<open>00\<close> and \<open>000\<close> say, get the same
  matching key, the normalised tax id followed by \<open>_\<close>. The validator's check of the
  invoice field rejects the text \<open>0\<close> only: a row whose invoice is two or more zeros is
  valid exactly when the same row with invoice \<open>1\<close> is.
\<close>

theorem all_zero_invoices_share_key:
  assumes "trim f1 = replicate (Suc n1) (CHR ''0'')"
    and "trim f2 = replicate (Suc n2) (CHR ''0'')"
    and "row1 (propKey (mapping ''factura'')) = Some f1"
    and "row2 (propKey (mapping ''factura'')) = Some f2"
    and "row1 (propKey (mapping ''rut'')) = row2 (propKey (mapping ''rut''))"
  shows "normalizeInvoice (Some f1) = []
       \<and> matchingKey mapping row1 = matchingKey mapping row2
       \<and> matchingKey mapping row1 = normalizeRut (row1 (propKey (mapping ''rut''))) @ ''_''
       \<and> (n1 = 0 \<longrightarrow> \<not> isValidDataRow row1 mapping)
       \<and> (0 < n1 \<and> trim (cell row' mapping ''factura'') = ''1''
            \<and> (\<forall>k \<in> set [''rut'', ''monto'', ''nombre'', ''tipo''].
                  cell row' mapping k = cell row1 mapping k)
          \<longrightarrow> isValidDataRow row1 mapping = isValidDataRow row' mapping)"
proof -
  have ne: "f1 \<noteq> []" "f2 \<noteq> []"
    using assms(1,2) by (auto simp: trim_Nil)
  have z: "normalizeInvoice (Some f) = []" if "trim f = replicate (Suc n) (CHR ''0'')" for f n
    unfolding normalizeInvoice_def using that by simp
  have n1: "normalizeInvoice (Some f1) = []"
    by (rule z [OF assms(1)])
  have n2: "normalizeInvoice (Some f2) = []"
    by (rule z [OF assms(2)])
  have k1: "matchingKey mapping row1 = normalizeRut (row1 (propKey (mapping ''rut''))) @ ''_''"
    by (simp add: matchingKey_def assms(3) n1)
  have k2: "matchingKey mapping row2 = normalizeRut (row1 (propKey (mapping ''rut''))) @ ''_''"
    by (simp add: matchingKey_def assms(4,5) n2)
  have c1: "trim (cell row1 mapping ''factura'') = replicate (Suc n1) (CHR ''0'')"
    using assms(1,3) ne by (simp add: cell_def orElse_def)
  have one: "n1 = 0 \<longrightarrow> \<not> isValidDataRow row1 mapping"
  proof
    assume "n1 = 0"
    with c1 have "trim (cell row1 mapping ''factura'') = ''0''" by simp
    then show "\<not> isValidDataRow row1 mapping"
      by (simp add: isValidDataRow_def)
  qed
  have same: "matchingKey mapping row1 = matchingKey mapping row2"
    unfolding k1 k2 ..
  have more: "0 < n1 \<and> trim (cell row' mapping ''factura'') = ''1''
            \<and> (\<forall>k \<in> set [''rut'', ''monto'', ''nombre'', ''tipo''].
                  cell row' mapping k = cell row1 mapping k)
          \<longrightarrow> isValidDataRow row1 mapping = isValidDataRow row' mapping"
  proof (intro impI, elim conjE)
    assume prem: "0 < n1" "trim (cell row' mapping ''factura'') = ''1''"
      "\<forall>k \<in> set [''rut'', ''monto'', ''nombre'', ''tipo''].
             cell row' mapping k = cell row1 mapping k"
    obtain m where "n1 = Suc m" using prem(1) gr0_implies_Suc by blast
    then have "trim (cell row1 mapping ''factura'') = CHR ''0'' # CHR ''0'' # replicate m (CHR ''0'')"
      using c1 by simp
    with prem(2,3) show "isValidDataRow row1 mapping = isValidDataRow row' mapping"
      by (simp add: isValidDataRow_def)
  qed
  from n1 same k1 one more show ?thesis
    by (intro conjI)
qed

theorem all_zero_invoices_share_key_witness:
  "matchingKey sampleMapping
     (sampleRow ''00'' ''12.345.678-5'' ''1.500'' ''ACME SPA'' ''01/01/2024'' ''33'')
   = matchingKey sampleMapping
     (sampleRow '' 000'' ''12.345.678-5'' ''900'' ''ACME SPA'' ''09/01/2024'' ''33'')
   \<and> matchingKey sampleMapping
     (sampleRow ''00'' ''12.345.678-5'' ''1.500'' ''ACME SPA'' ''01/01/2024'' ''33'')
     = ''123456785_''
   \<and> isValidDataRow (sampleRow ''00'' ''12.345.678-5'' ''1.500'' ''ACME SPA'' ''01/01/2024'' ''33'')
        sampleMapping"
proof -
  let ?r1 = "sampleRow ''00'' ''12.345.678-5'' ''1.500'' ''ACME SPA'' ''01/01/2024'' ''33''"
  let ?r2 = "sampleRow '' 000'' ''12.345.678-5'' ''900'' ''ACME SPA'' ''09/01/2024'' ''33''"
  let ?r' = "sampleRow ''1'' ''12.345.678-5'' ''1.500'' ''ACME SPA'' ''01/01/2024'' ''33''"
  have h: "trim ''00'' = replicate (Suc 1) (CHR ''0'')"
    "trim '' 000'' = replicate (Suc 2) (CHR ''0'')"
    "?r1 (propKey (sampleMapping ''factura'')) = Some ''00''"
    "?r2 (propKey (sampleMapping ''factura'')) = Some '' 000''"
    "?r1 (propKey (sampleMapping ''rut'')) = ?r2 (propKey (sampleMapping ''rut''))"
    by code_simp+
  have r: "normalizeRut (?r1 (propKey (sampleMapping ''rut''))) = ''123456785''"
    by code_simp
  have v: "0 < (1::nat)" "trim (cell ?r' sampleMapping ''factura'') = ''1''"
    "\<forall>k \<in> set [''rut'', ''monto'', ''nombre'', ''tipo''].
        cell ?r' sampleMapping k = cell ?r1 sampleMapping k"
    "isValidDataRow ?r' sampleMapping"
    by code_simp+
  note inst = all_zero_invoices_share_key [OF h, where row' = ?r']
  note same = inst [THEN conjunct2, THEN conjunct1]
  note shape = inst [THEN conjunct2, THEN conjunct2, THEN conjunct1]
  note valid = inst [THEN conjunct2, THEN conjunct2, THEN conjunct2, THEN conjunct2]
  have b: "matchingKey sampleMapping ?r1 = ''123456785_''"
    unfolding shape r by simp
  have "isValidDataRow ?r1 sampleMapping = isValidDataRow ?r' sampleMapping"
    by (rule mp [OF valid]) (intro conjI v(1) v(2) v(3))
  with v(4) have c: "isValidDataRow ?r1 sampleMapping"
    by (rule ssubst [where P = "\<lambda>b. b", rotated])
  from same b c show ?thesis
    by (intro conjI)
qed

section \<open>The audit state\<close>




text \<open>
  C4. For every list of selected keys, the automatic check gives each key that finds a
  record in \<open>missingRecords\<close> (the first record with that matching key) the status
  \<open>failed\<close> if some control record has the same normalised invoice number, whatever its
  tax id and amount, and \<open>verified\<close> otherwise. Keys that find no missing record are
  skipped, and their entries, like those of the keys not selected, stay as they were. In
  particular a missing record with invoice \<open>100\<close> against a control set holding invoice
  \<open>0100\<close> under another tax id becomes \<open>failed\<close>.
\<close>

theorem handleBulkAutoCheck_status:
  "map_of (handleBulkAutoCheck result st ids) k =
     (if k \<in> set ids
      then (case find (\<lambda>r. r ''_key'' = Some k) (missingRecords result) of
              None \<Rightarrow> map_of st k
            | Some record \<Rightarrow>
                Some (if \<exists>c \<in> set (controlRecords result).
                           normalizeInvoice (c ''factura_val'') =
                           normalizeInvoice (record ''factura_val'')
                      then Failed else Verified))
      else map_of st k)"
proof -
  define g where "g = (\<lambda>id.
     case find (\<lambda>r. r ''_key'' = Some id) (missingRecords result) of
       None \<Rightarrow> None
     | Some record \<Rightarrow>
         Some (if list_ex (\<lambda>c. normalizeInvoice (c ''factura_val'') =
                                normalizeInvoice (record ''factura_val''))
                    (controlRecords result) then Failed else Verified))"
  have "(\<lambda>id newState.
            (case find (\<lambda>r. r ''_key'' = Some id) (missingRecords result) of
               None \<Rightarrow> newState
             | Some record \<Rightarrow>
                 (let targetInv = normalizeInvoice (record ''factura_val'');
                      found = list_ex (\<lambda>c. normalizeInvoice (c ''factura_val'') = targetInv)
                                (controlRecords result)
                  in AList.update id (if found then Failed else Verified) newState)))
        = (\<lambda>id newState. case g id of None \<Rightarrow> newState
                                | Some v \<Rightarrow> AList.update id v newState)"
    by (auto simp: g_def fun_eq_iff Let_def split: option.splits)
  then have eq: "handleBulkAutoCheck result st ids =
      fold (\<lambda>id newState. case g id of None \<Rightarrow> newState
                                | Some v \<Rightarrow> AList.update id v newState) ids st"
    unfolding handleBulkAutoCheck_def by simp
  show ?thesis
    unfolding eq map_of_fold_update_opt
    by (simp add: g_def list_ex_iff split: option.splits)
qed

theorem handleBulkAutoCheck_status_witness:
  "map_of (handleBulkAutoCheck
             (reconcile [canonRow ''111111111_100'' ''100'' ''5000'' ''15/03/2024'',
                         canonRow ''111111111_200'' ''200'' ''700'' ''16/03/2024'']
                        [canonRow ''222222222_100'' ''0100'' ''5000'' ''15/03/2024''])
             [(''x'', Pending)] [''111111111_100'', ''111111111_200'', ''333333333_1''])
      ''111111111_100'' = Some Failed
   \<and> map_of (handleBulkAutoCheck
             (reconcile [canonRow ''111111111_100'' ''100'' ''5000'' ''15/03/2024'',
                         canonRow ''111111111_200'' ''200'' ''700'' ''16/03/2024'']
                        [canonRow ''222222222_100'' ''0100'' ''5000'' ''15/03/2024''])
             [(''x'', Pending)] [''111111111_100'', ''111111111_200'', ''333333333_1''])
      ''111111111_200'' = Some Verified
   \<and> map_of (handleBulkAutoCheck
             (reconcile [canonRow ''111111111_100'' ''100'' ''5000'' ''15/03/2024'',
                         canonRow ''111111111_200'' ''200'' ''700'' ''16/03/2024'']
                        [canonRow ''222222222_100'' ''0100'' ''5000'' ''15/03/2024''])
             [(''x'', Pending)] [''111111111_100'', ''111111111_200'', ''333333333_1''])
      ''333333333_1'' = None
   \<and> map_of (handleBulkAutoCheck
             (reconcile [canonRow ''111111111_100'' ''100'' ''5000'' ''15/03/2024'',
                         canonRow ''111111111_200'' ''200'' ''700'' ''16/03/2024'']
                        [canonRow ''222222222_100'' ''0100'' ''5000'' ''15/03/2024''])
             [(''x'', Pending)] [''111111111_100'', ''111111111_200'', ''333333333_1''])
      ''x'' = Some Pending"
proof -
  let ?res = "reconcile [canonRow ''111111111_100'' ''100'' ''5000'' ''15/03/2024'',
                         canonRow ''111111111_200'' ''200'' ''700'' ''16/03/2024'']
                        [canonRow ''222222222_100'' ''0100'' ''5000'' ''15/03/2024'']"
  have m: "missingRecords ?res = [canonRow ''111111111_100'' ''100'' ''5000'' ''15/03/2024'',
                         canonRow ''111111111_200'' ''200'' ''700'' ''16/03/2024'']"
    unfolding missingRecords_reconcile by (simp add: canonRow_def)
  have c: "controlRecords ?res = [canonRow ''222222222_100'' ''0100'' ''5000'' ''15/03/2024'']"
    by (rule controlRecords_reconcile)
  have n1: "normalizeInvoice (Some ''100'') = ''100''" by code_simp
  have n2: "normalizeInvoice (Some ''0100'') = ''100''" by code_simp
  have n3: "normalizeInvoice (Some ''200'') = ''200''" by code_simp
  show ?thesis
    unfolding handleBulkAutoCheck_status m c
    by (simp add: canonRow_def n1 n2 n3)
qed

section \<open>The derived metrics of the report\<close>

text \<open>
  C6. For every analysis result and audit state, the metrics shown with the report are:
  \<open>verified\<close>, the number of entries of the audit state with status \<open>verified\<close>;
  \<open>failed\<close>, the number with status \<open>failed\<close>; \<open>realMissing\<close>, \<open>missingCount\<close> minus
  \<open>failed\<close>; and \<open>realMissingAmount\<close>, the sum of the parsed \<open>monto_val\<close> over exactly
  those missing records whose audit status is not \<open>failed\<close>, records without an entry
  (pending) included. The audit state is a dictionary: each key occurs once.
\<close>

theorem report_metrics:
  assumes "distinct (map fst st)"
  shows "verified st = int (card {k. map_of st k = Some Verified})
       \<and> failed st = int (card {k. map_of st k = Some Failed})
       \<and> realMissing result st = missingCount result - failed st
       \<and> realMissingAmount result st =
           (\<Sum>r \<leftarrow> filter (\<lambda>r. map_of st (propKey (r ''_key'')) \<noteq> Some Failed)
                        (missingRecords result).
              parseAmount (r ''monto_val''))"
proof -
  have "verified st = int (card {k. map_of st k = Some Verified})"
    unfolding verified_def card_keys_with_status [OF assms] ..
  moreover have "failed st = int (card {k. map_of st k = Some Failed})"
    unfolding failed_def card_keys_with_status [OF assms] ..
  moreover have "realMissing result st = missingCount result - failed st"
    by (simp add: realMissing_def)
  moreover have "realMissingAmount result st =
           (\<Sum>r \<leftarrow> filter (\<lambda>r. map_of st (propKey (r ''_key'')) \<noteq> Some Failed)
                        (missingRecords result).
              parseAmount (r ''monto_val''))"
    unfolding realMissingAmount_def foldl_add_sum_list by simp
  ultimately show ?thesis by blast
qed

theorem report_metrics_witness:
  "int (card {k. map_of [(''111111111_100'', Failed), (''111111111_200'', Verified),
                         (''999999999_9'', Failed)] k = Some Verified}) = 1
   \<and> int (card {k. map_of [(''111111111_100'', Failed), (''111111111_200'', Verified),
                         (''999999999_9'', Failed)] k = Some Failed}) = 2
   \<and> realMissing
         (reconcile [canonRow ''111111111_100'' ''100'' ''5000'' ''15/03/2024'',
                     canonRow ''111111111_200'' ''200'' ''700'' ''16/03/2024'',
                     canonRow ''111111111_300'' ''300'' ''40'' ''17/03/2024''] [])
         [(''111111111_100'', Failed), (''111111111_200'', Verified), (''999999999_9'', Failed)]
       = 1
   \<and> realMissingAmount
         (reconcile [canonRow ''111111111_100'' ''100'' ''5000'' ''15/03/2024'',
                     canonRow ''111111111_200'' ''200'' ''700'' ''16/03/2024'',
                     canonRow ''111111111_300'' ''300'' ''40'' ''17/03/2024''] [])
         [(''111111111_100'', Failed), (''111111111_200'', Verified), (''999999999_9'', Failed)]
       = 740"
proof -
  let ?st = "[(''111111111_100'', Failed), (''111111111_200'', Verified),
              (''999999999_9'', Failed)]"
  let ?res = "reconcile [canonRow ''111111111_100'' ''100'' ''5000'' ''15/03/2024'',
                     canonRow ''111111111_200'' ''200'' ''700'' ''16/03/2024'',
                     canonRow ''111111111_300'' ''300'' ''40'' ''17/03/2024''] []"
  have d: "distinct (map fst ?st)" by simp
  note inst = report_metrics [OF d, of ?res]
  have v: "verified ?st = 1" and f: "failed ?st = 2"
    by (simp_all add: verified_def failed_def)
  have m: "missingRecords ?res = [canonRow ''111111111_100'' ''100'' ''5000'' ''15/03/2024'',
                     canonRow ''111111111_200'' ''200'' ''700'' ''16/03/2024'',
                     canonRow ''111111111_300'' ''300'' ''40'' ''17/03/2024'']"
    unfolding missingRecords_reconcile by simp
  have c: "missingCount ?res = 3"
    by (simp add: reconcile_def Let_def)
  have p: "parseAmount (Some ''700'') = 700" "parseAmount (Some ''40'') = 40"
    by code_simp+
  have a: "(\<Sum>r \<leftarrow> filter (\<lambda>r. map_of ?st (propKey (r ''_key'')) \<noteq> Some Failed)
                        (missingRecords ?res).
              parseAmount (r ''monto_val'')) = 740"
    unfolding m by (simp add: canonRow_def propKey_def p)
  from inst v f c a show ?thesis by simp
qed

section \<open>The monthly summary is grouped, counted and sorted\<close>

text \<open>
  C8. For every record list the monthly aggregator groups the records by a month key
  taken from \<open>fecha_val\<close>: the text is split on \<open>-\<close> and \<open>/\<close>; with exactly three parts the
  key is \<open>parts[0]-parts[1]\<close> when the first part has length 4 and \<open>parts[2]-parts[1]\<close>
  otherwise; any other shape gives the bucket \<open>Desconocido\<close>. There is one bucket for each
  month key that occurs; it holds the number of its records and the sum of their parsed
  amounts. The result is sorted ascending by month key, in the order of the string
  comparison the sort is given. In particular records dated \<open>15/03/2024\<close> and
  \<open>20/03/2024\<close> with amounts 1000 and 2000 give one bucket \<open>2024-03\<close> with \<open>count = 2\<close>
  and \<open>total = 3000\<close>.
\<close>

theorem MonthlyStats_buckets:
  "(\<forall>r. monthYearOf r =
       (case splitOn (\<lambda>c. c = CHR ''-'' \<or> c = CHR ''/'') (orElse (r ''fecha_val'') []) of
          [a, b, c] \<Rightarrow> if length a = 4 then a @ ''-'' @ b else c @ ''-'' @ b
        | _ \<Rightarrow> ''Desconocido''))
   \<and> Sorting_Algorithms.sorted (key fst localeCompare) (MonthlyStats localeCompare records)
   \<and> distinct (map fst (MonthlyStats localeCompare records))
   \<and> fst ` set (MonthlyStats localeCompare records) = monthYearOf ` set records
   \<and> (\<forall>(k, g) \<in> set (MonthlyStats localeCompare records).
         count g = int (length (filter (\<lambda>r. monthYearOf r = k) records)) \<and>
         total g = (\<Sum>r \<leftarrow> filter (\<lambda>r. monthYearOf r = k) records.
                      parseAmount (r ''monto_val'')))"
proof -
  let ?G = "foldl addToGroup [] records"
  let ?R = "MonthlyStats localeCompare records"
  have R: "?R = Sorting_Algorithms.sort (key fst localeCompare) ?G"
    by (simp add: MonthlyStats_def)
  have mset: "mset ?R = mset ?G" unfolding R by simp
  have set_eq: "set ?R = set ?G" unfolding R by simp
  have dG: "distinct (map fst ?G)" by (rule distinct_foldl_addToGroup) simp
  have "mset (map fst ?R) = mset (map fst ?G)" using mset by (metis mset_map)
  then have dR: "distinct (map fst ?R)" using dG by (metis mset_eq_imp_distinct_iff)
  have keys: "fst ` set ?R = monthYearOf ` set records"
  proof -
    have "fst ` set ?G = dom (map_of ?G)" by (simp add: dom_map_of_conv_image_fst)
    also have "\<dots> = {k. filter (\<lambda>r. monthYearOf r = k) records \<noteq> []}"
      unfolding dom_def map_of_grouped by auto
    also have "\<dots> = monthYearOf ` set records"
      by (auto simp: filter_empty_conv)
    finally show ?thesis unfolding set_eq .
  qed
  have buckets: "\<forall>(k, g) \<in> set ?R.
         count g = int (length (filter (\<lambda>r. monthYearOf r = k) records)) \<and>
         total g = (\<Sum>r \<leftarrow> filter (\<lambda>r. monthYearOf r = k) records.
                      parseAmount (r ''monto_val''))"
  proof (clarify)
    fix k g assume "(k, g) \<in> set ?R"
    then have "map_of ?G k = Some g" using dG set_eq by simp
    then show "count g = int (length (filter (\<lambda>r. monthYearOf r = k) records)) \<and>
         total g = (\<Sum>r \<leftarrow> filter (\<lambda>r. monthYearOf r = k) records.
                      parseAmount (r ''monto_val''))"
      unfolding map_of_grouped by (auto split: if_splits)
  qed
  have sorted: "Sorting_Algorithms.sorted (key fst localeCompare) ?R"
    unfolding R by simp
  from monthYearOf_shape sorted dR keys buckets show ?thesis by blast
qed

theorem MonthlyStats_buckets_witness:
  "MonthlyStats default
     [canonRow ''111111111_100'' ''100'' ''1000'' ''15/03/2024'',
      canonRow ''111111111_200'' ''200'' ''2000'' ''20/03/2024'']
   = [(''2024-03'', \<lparr>count = 2, total = 3000\<rparr>)]
   \<and> MonthlyStats default
     [canonRow ''111111111_100'' ''100'' ''1000'' ''15/03/2024'',
      canonRow ''111111111_300'' ''300'' ''50'' ''sin fecha'',
      canonRow ''111111111_200'' ''200'' ''2000'' ''2023-12-01'',
      canonRow ''111111111_400'' ''400'' ''7'' ''20/03/2024'']
   = [(''2023-12'', \<lparr>count = 1, total = 2000\<rparr>), (''2024-03'', \<lparr>count = 2, total = 1007\<rparr>),
      (''Desconocido'', \<lparr>count = 1, total = 50\<rparr>)]
   \<and> Sorting_Algorithms.sorted (key fst default)
      [(''2023-12'', \<lparr>count = 1, total = 2000\<rparr>), (''2024-03'', \<lparr>count = 2, total = 1007\<rparr>),
       (''Desconocido'', \<lparr>count = 1, total = 50\<rparr>)]"
proof -
  have 1: "MonthlyStats default
     [canonRow ''111111111_100'' ''100'' ''1000'' ''15/03/2024'',
      canonRow ''111111111_200'' ''200'' ''2000'' ''20/03/2024'']
   = [(''2024-03'', \<lparr>count = 2, total = 3000\<rparr>)]"
    by code_simp
  have 2: "MonthlyStats default
     [canonRow ''111111111_100'' ''100'' ''1000'' ''15/03/2024'',
      canonRow ''111111111_300'' ''300'' ''50'' ''sin fecha'',
      canonRow ''111111111_200'' ''200'' ''2000'' ''2023-12-01'',
      canonRow ''111111111_400'' ''400'' ''7'' ''20/03/2024'']
   = [(''2023-12'', \<lparr>count = 1, total = 2000\<rparr>), (''2024-03'', \<lparr>count = 2, total = 1007\<rparr>),
      (''Desconocido'', \<lparr>count = 1, total = 50\<rparr>)]"
    by code_simp
  note inst = MonthlyStats_buckets [of default
     "[canonRow ''111111111_100'' ''100'' ''1000'' ''15/03/2024'',
      canonRow ''111111111_300'' ''300'' ''50'' ''sin fecha'',
      canonRow ''111111111_200'' ''200'' ''2000'' ''2023-12-01'',
      canonRow ''111111111_400'' ''400'' ''7'' ''20/03/2024'']"]
  note s = inst [THEN conjunct2, THEN conjunct1, unfolded 2]
  from 1 2 s show ?thesis by (intro conjI)
qed

end
